theory Spec2Isabelle
  imports Complex_Main "HOL-Library.AList" "HOL-Library.Sublist"
begin

section \<open>Values exchanged with the metadata service\<close>

text \<open>
  Everything \<^verbatim>\<open>app.py\<close> handles is what \<^verbatim>\<open>response.json()\<close> returns: a decoded JSON
  document. Python decodes a JSON number to an \<^verbatim>\<open>int\<close> or a \<^verbatim>\<open>float\<close>; a float is
  kept by its value (every finite float is a rational), with the two infinities and
  NaN, which the decoder accepts. A JSON object is a \<^verbatim>\<open>dict\<close> keyed by strings, kept as
  an association list in insertion order; a key is looked up at its first binding.
  A string is kept as the bytes of its UTF-8 encoding; the program tests strings for
  emptiness, equality, the prefix \<open>tt\<close> and ASCII substrings only, which read the
  same on bytes and on code points.

  The \<^verbatim>\<open>print\<close> calls are taken to succeed and are left out, except where
  building the printed line evaluates something that can raise (\<^verbatim>\<open>len(results)\<close>
  at line 51, \<^verbatim>\<open>india_providers.keys()\<close> at line 97). A run of
  \<^verbatim>\<open>fetch_and_cache_movies\<close> is modelled on its own, as one sequential execution.
\<close>

datatype pyfloat = Finite rat | PosInf | NegInf | NaN

datatype json =
    JNull
  | JBool bool
  | JInt int
  | JFloat pyfloat
  | JStr string
  | JList "json list"
  | JObj "(string \<times> json) list"

text \<open>The exceptions the program can meet.\<close>

datatype error =
    Timeout
  | RequestException
  | JSONDecodeError
  | AttributeError
  | TypeError
  | KeyError

subsection \<open>Python's operations on decoded JSON\<close>

text \<open>\<^verbatim>\<open>bool(v)\<close>, as \<^verbatim>\<open>if v\<close> and \<^verbatim>\<open>not v\<close> use it.\<close>

fun truthy :: "json \<Rightarrow> bool" where
  "truthy JNull = False"
| "truthy (JBool b) = b"
| "truthy (JInt n) = (n \<noteq> 0)"
| "truthy (JFloat f) = (f \<noteq> Finite 0)"
| "truthy (JStr s) = (s \<noteq> [])"
| "truthy (JList xs) = (xs \<noteq> [])"
| "truthy (JObj d) = (d \<noteq> [])"

text \<open>\<^verbatim>\<open>v.get(k, default)\<close>: only a dict has the method.\<close>

fun py_get_default :: "json \<Rightarrow> string \<Rightarrow> json \<Rightarrow> error + json" where
  "py_get_default (JObj d) k dflt = Inr (case map_of d k of None \<Rightarrow> dflt | Some v \<Rightarrow> v)"
| "py_get_default _ k dflt = Inl AttributeError"

definition py_get :: "json \<Rightarrow> string \<Rightarrow> error + json" where
  "py_get v k = py_get_default v k JNull"

text \<open>\<^verbatim>\<open>len(v)\<close>.\<close>

fun py_len :: "json \<Rightarrow> error + nat" where
  "py_len (JStr s) = Inr (length s)"
| "py_len (JList xs) = Inr (length xs)"
| "py_len (JObj d) = Inr (length d)"
| "py_len _ = Inl TypeError"

text \<open>
  \<^verbatim>\<open>for x in v\<close>: the elements of a list, the one-character strings of a string,
  the keys of a dict.
\<close>

fun py_iter :: "json \<Rightarrow> error + json list" where
  "py_iter (JList xs) = Inr xs"
| "py_iter (JStr s) = Inr (map (\<lambda>c. JStr [c]) s)"
| "py_iter (JObj d) = Inr (map (\<lambda>kv. JStr (fst kv)) d)"
| "py_iter _ = Inl TypeError"

text \<open>
  \<^verbatim>\<open>k in v\<close> for a string \<open>k\<close>: a key of a dict, an element of a list (only a string
  equals a string), a substring of a string; the other values are not containers.
\<close>

fun py_in :: "string \<Rightarrow> json \<Rightarrow> error + bool" where
  "py_in k (JObj d) = Inr (k \<in> fst ` set d)"
| "py_in k (JList xs) = Inr (JStr k \<in> set xs)"
| "py_in k (JStr s) = Inr (sublist k s)"
| "py_in k _ = Inl TypeError"

text \<open>\<^verbatim>\<open>v[k]\<close> for a string \<open>k\<close>: lists and strings take integer indices only.\<close>

fun py_getitem :: "json \<Rightarrow> string \<Rightarrow> error + json" where
  "py_getitem (JObj d) k = (case map_of d k of None \<Rightarrow> Inl KeyError | Some v \<Rightarrow> Inr v)"
| "py_getitem _ k = Inl TypeError"

text \<open>\<^verbatim>\<open>v[k] = x\<close>: an existing key keeps its place, a new one goes last.\<close>

fun py_setitem :: "json \<Rightarrow> string \<Rightarrow> json \<Rightarrow> error + json" where
  "py_setitem (JObj d) k x = Inr (JObj (AList.update k x d))"
| "py_setitem _ k x = Inl TypeError"

text \<open>\<^verbatim>\<open>v.startswith(p)\<close>: a method of strings.\<close>

fun py_startswith :: "json \<Rightarrow> string \<Rightarrow> error + bool" where
  "py_startswith (JStr s) p = Inr (prefix p s)"
| "py_startswith _ p = Inl AttributeError"

text \<open>\<^verbatim>\<open>v.keys()\<close>, called while the log line of an added movie is formatted.\<close>

fun py_keys :: "json \<Rightarrow> error + json list" where
  "py_keys (JObj d) = Inr (map (\<lambda>kv. JStr (fst kv)) d)"
| "py_keys _ = Inl AttributeError"

text \<open>
  Membership in a \<^verbatim>\<open>set\<close> hashes the value, so lists and dicts raise; the others
  compare with \<^verbatim>\<open>==\<close>, under which \<^verbatim>\<open>True\<close>, \<^verbatim>\<open>1\<close> and \<^verbatim>\<open>1.0\<close> are one value.
  NaN differs from itself under \<^verbatim>\<open>==\<close>, but the decoder hands out one NaN object
  for every NaN it reads and membership tests identity first, so a NaN is found again.
\<close>

fun py_num :: "json \<Rightarrow> pyfloat option" where
  "py_num (JBool b) = Some (Finite (if b then 1 else 0))"
| "py_num (JInt n) = Some (Finite (of_int n))"
| "py_num (JFloat f) = Some f"
| "py_num _ = None"

definition py_eq :: "json \<Rightarrow> json \<Rightarrow> bool" where
  "py_eq a b =
     (case (py_num a, py_num b) of
        (Some x, Some y) \<Rightarrow> x = y
      | (None, None) \<Rightarrow> a = b
      | _ \<Rightarrow> False)"

fun py_hashable :: "json \<Rightarrow> bool" where
  "py_hashable (JList xs) = False"
| "py_hashable (JObj d) = False"
| "py_hashable _ = True"

definition py_in_set :: "json \<Rightarrow> json list \<Rightarrow> error + bool" where
  "py_in_set v seen =
     (if py_hashable v then Inr (list_ex (\<lambda>u. py_eq u v) seen) else Inl TypeError)"

section \<open>The metadata service and the process state\<close>

text \<open>
  The three queries of the program. Each carries what varies between two calls: the
  date and page of a discover query, the identifier formatted into the path of the two
  per-movie lookups. The credential, the language, the region and the sort order are
  constants of the program.
\<close>

datatype request =
    Discover string nat
  | WatchProviders json
  | ExternalIds json

text \<open>
  \<^verbatim>\<open>requests.get(...)\<close> followed by \<^verbatim>\<open>.json()\<close> either raises or yields a decoded
  document. The service is any function of its own state \<open>'w\<close> and the request, so that
  it may answer the same request differently each time.
\<close>

type_synonym outcome = "error + json"

type_synonym 'w service = "'w \<Rightarrow> request \<Rightarrow> outcome \<times> 'w"

record 'w state =
  all_movies_cache :: "json list"
  world :: 'w
  issued :: "request list"

definition requests_get :: "'w service \<Rightarrow> request \<Rightarrow> 'w state \<Rightarrow> outcome \<times> 'w state" where
  "requests_get srv rq st =
     (case srv (world st) rq of
        (out, w') \<Rightarrow> (out, st\<lparr>world := w', issued := issued st @ [rq]\<rparr>))"

section \<open>The refresh pipeline\<close>

text \<open>
  Line 80 of \<^verbatim>\<open>fetch_and_cache_movies\<close>, the \<^verbatim>\<open>or\<close> of three membership tests,
  left to right, and lines 72 to 77: \<open>Inr None\<close> at the \<^verbatim>\<open>continue\<close> of line 75,
  \<open>Inr (Some india_providers)\<close> after line 77. \<open>Inl\<close> is the exception of a test or of
  a subscript.
\<close>

definition has_provider :: "json \<Rightarrow> error + bool" where
  "has_provider india_providers =
     (case py_in ''flatrate'' india_providers of
        Inl e \<Rightarrow> Inl e
      | Inr True \<Rightarrow> Inr True
      | Inr False \<Rightarrow>
          (case py_in ''buy'' india_providers of
             Inl e \<Rightarrow> Inl e
           | Inr True \<Rightarrow> Inr True
           | Inr False \<Rightarrow> py_in ''rent'' india_providers))"

definition india_providers_of :: "json \<Rightarrow> error + json option" where
  "india_providers_of prov_data =
     (case py_in ''results'' prov_data of
        Inl e \<Rightarrow> Inl e
      | Inr False \<Rightarrow> Inr None
      | Inr True \<Rightarrow>
          (case py_getitem prov_data ''results'' of
             Inl e \<Rightarrow> Inl e
           | Inr results \<Rightarrow>
               (case py_in ''IN'' results of
                  Inl e \<Rightarrow> Inl e
                | Inr False \<Rightarrow> Inr None
                | Inr True \<Rightarrow>
                    (case py_getitem results ''IN'' of
                       Inl e \<Rightarrow> Inl e
                     | Inr india_providers \<Rightarrow> Inr (Some india_providers)))))"

text \<open>
  Lines 88 to 101, the inner \<^verbatim>\<open>try\<close>: the external-identifier lookup. Whatever
  raises is caught at line 99 and leaves \<open>final_movies\<close> as it is at that moment; the
  only statement after the append that can raise is the log line's
  \<^verbatim>\<open>india_providers.keys()\<close>.
\<close>

definition add_with_imdb_id ::
  "'w service \<Rightarrow> json \<Rightarrow> json \<Rightarrow> json \<Rightarrow> json list \<Rightarrow> 'w state \<Rightarrow> json list \<times> 'w state" where
  "add_with_imdb_id srv movie movie_id india_providers final_movies st =
     (case requests_get srv (ExternalIds movie_id) st of
        (Inl e, st') \<Rightarrow> (final_movies, st')
      | (Inr ext_data, st') \<Rightarrow>
          (case py_get ext_data ''imdb_id'' of
             Inl e \<Rightarrow> (final_movies, st')
           | Inr imdb_id \<Rightarrow>
               if \<not> truthy imdb_id then (final_movies, st')
               else
                 (case py_startswith imdb_id ''tt'' of
                    Inl e \<Rightarrow> (final_movies, st')
                  | Inr False \<Rightarrow> (final_movies, st')
                  | Inr True \<Rightarrow>
                      (case py_setitem movie ''imdb_id'' imdb_id of
                         Inl e \<Rightarrow> (final_movies, st')
                       | Inr movie' \<Rightarrow>
                           (case py_keys india_providers of
                              Inl e \<Rightarrow> (final_movies @ [movie'], st')
                            | Inr ks \<Rightarrow> (final_movies @ [movie'], st'))))))"

text \<open>
  Lines 60 to 106, the body of \<^verbatim>\<open>for movie in results\<close>. The first component is
  the exception that leaves the body, if any: the two \<^verbatim>\<open>movie.get\<close> calls stand
  outside the \<^verbatim>\<open>try\<close> of line 66, everything after them is inside it and is caught
  at line 103.
\<close>

definition check_movie ::
  "'w service \<Rightarrow> json \<Rightarrow> json list \<Rightarrow> 'w state \<Rightarrow> error option \<times> json list \<times> 'w state" where
  "check_movie srv movie final_movies st =
     (case py_get movie ''id'' of
        Inl e \<Rightarrow> (Some e, final_movies, st)
      | Inr movie_id \<Rightarrow>
          (case py_get movie ''title'' of
             Inl e \<Rightarrow> (Some e, final_movies, st)
           | Inr title \<Rightarrow>
               if \<not> truthy movie_id \<or> \<not> truthy title then (None, final_movies, st)
               else
                 (case requests_get srv (WatchProviders movie_id) st of
                    (Inl e, st') \<Rightarrow> (None, final_movies, st')
                  | (Inr prov_data, st') \<Rightarrow>
                      (case india_providers_of prov_data of
                         Inl e \<Rightarrow> (None, final_movies, st')
                       | Inr None \<Rightarrow> (None, final_movies, st')
                       | Inr (Some india_providers) \<Rightarrow>
                           (case has_provider india_providers of
                              Inl e \<Rightarrow> (None, final_movies, st')
                            | Inr False \<Rightarrow> (None, final_movies, st')
                            | Inr True \<Rightarrow>
                                (case add_with_imdb_id srv movie movie_id india_providers
                                        final_movies st' of
                                   (final_movies', st'') \<Rightarrow> (None, final_movies', st'')))))))"

text \<open>The loop of line 59: an exception leaving one body ends the loop.\<close>

fun check_movies ::
  "'w service \<Rightarrow> json list \<Rightarrow> json list \<Rightarrow> 'w state \<Rightarrow> error option \<times> json list \<times> 'w state" where
  "check_movies srv [] final_movies st = (None, final_movies, st)"
| "check_movies srv (movie # rest) final_movies st =
     (case check_movie srv movie final_movies st of
        (Some e, final_movies', st') \<Rightarrow> (Some e, final_movies', st')
      | (None, final_movies', st') \<Rightarrow> check_movies srv rest final_movies' st')"

text \<open>
  Lines 40 to 115, the body of \<^verbatim>\<open>for page in range(1, 301)\<close>, and how it ends:
  \<open>Completed\<close> when control reaches the next iteration, \<open>Exhausted\<close> at the
  \<^verbatim>\<open>break\<close> of line 57, \<open>Raised e\<close> at the \<^verbatim>\<open>break\<close> of line 111 or 115 (the
  two handlers differ in the message only).
\<close>

datatype page_end = Completed | Exhausted | Raised error

definition fetch_page ::
  "'w service \<Rightarrow> string \<Rightarrow> nat \<Rightarrow> json list \<Rightarrow> 'w state \<Rightarrow> page_end \<times> json list \<times> 'w state" where
  "fetch_page srv today page final_movies st =
     (case requests_get srv (Discover today page) st of
        (Inl e, st') \<Rightarrow> (Raised e, final_movies, st')
      | (Inr body, st') \<Rightarrow>
          (case py_get_default body ''results'' (JList []) of
             Inl e \<Rightarrow> (Raised e, final_movies, st')
           | Inr results \<Rightarrow>
               (case py_len results of
                  Inl e \<Rightarrow> (Raised e, final_movies, st')
                | Inr n \<Rightarrow>
                    if \<not> truthy results then (Exhausted, final_movies, st')
                    else
                      (case py_iter results of
                         Inl e \<Rightarrow> (Raised e, final_movies, st')
                       | Inr movies \<Rightarrow>
                           (case check_movies srv movies final_movies st' of
                              (Some e, final_movies', st'') \<Rightarrow> (Raised e, final_movies', st'')
                            | (None, final_movies', st'') \<Rightarrow>
                                (Completed, final_movies', st''))))))"

fun fetch_pages ::
  "'w service \<Rightarrow> string \<Rightarrow> nat list \<Rightarrow> json list \<Rightarrow> 'w state \<Rightarrow> json list \<times> 'w state" where
  "fetch_pages srv today [] final_movies st = (final_movies, st)"
| "fetch_pages srv today (page # pages) final_movies st =
     (case fetch_page srv today page final_movies st of
        (Completed, final_movies', st') \<Rightarrow> fetch_pages srv today pages final_movies' st'
      | (Exhausted, final_movies', st') \<Rightarrow> (final_movies', st')
      | (Raised e, final_movies', st') \<Rightarrow> (final_movies', st'))"

text \<open>
  Lines 118 to 124. Nothing catches here: a movie that is not a dict, or an identifier
  that cannot be hashed, raises out of the function. \<open>seen_ids\<close> lists the members of
  the set.
\<close>

fun deduplicate :: "json list \<Rightarrow> json list \<Rightarrow> json list \<Rightarrow> error + json list" where
  "deduplicate [] seen_ids unique_movies = Inr unique_movies"
| "deduplicate (movie # rest) seen_ids unique_movies =
     (case py_get movie ''imdb_id'' of
        Inl e \<Rightarrow> Inl e
      | Inr imdb_id \<Rightarrow>
          if \<not> truthy imdb_id then deduplicate rest seen_ids unique_movies
          else
            (case py_in_set imdb_id seen_ids of
               Inl e \<Rightarrow> Inl e
             | Inr True \<Rightarrow> deduplicate rest seen_ids unique_movies
             | Inr False \<Rightarrow>
                 deduplicate rest (seen_ids @ [imdb_id]) (unique_movies @ [movie])))"

text \<open>
  The whole function. \<open>today\<close> is the date string of line 24. The first component is
  the exception raised to the caller, if any; the cache is assigned at line 126 only.
\<close>

definition fetch_and_cache_movies ::
  "'w service \<Rightarrow> string \<Rightarrow> 'w state \<Rightarrow> error option \<times> 'w state" where
  "fetch_and_cache_movies srv today st =
     (case fetch_pages srv today [1..<301] [] st of
        (final_movies, st') \<Rightarrow>
          (case deduplicate final_movies [] [] of
             Inl e \<Rightarrow> (Some e, st')
           | Inr unique_movies \<Rightarrow> (None, st'\<lparr>all_movies_cache := unique_movies\<rparr>)))"

section \<open>The catalog endpoint\<close>

text \<open>
  An f-string field \<^verbatim>\<open>{v}\<close> is \<^verbatim>\<open>str(v)\<close>: the string itself for a string. How
  Python prints the other values is no part of the program and is the parameter
  \<open>str_of\<close>.
\<close>

definition py_format :: "(json \<Rightarrow> string) \<Rightarrow> json \<Rightarrow> string" where
  "py_format str_of v = (case v of JStr s \<Rightarrow> s | _ \<Rightarrow> str_of v)"

text \<open>
  \<^verbatim>\<open>f"<base>{movie[key]}" if movie.get(key) else None\<close>, lines 142 and 145, for the
  base with its width segment.
\<close>

definition image_url :: "(json \<Rightarrow> string) \<Rightarrow> string \<Rightarrow> json \<Rightarrow> string \<Rightarrow> error + json" where
  "image_url str_of base movie key =
     (case py_get movie key of
        Inl e \<Rightarrow> Inl e
      | Inr p \<Rightarrow>
          if truthy p then
            (case py_getitem movie key of
               Inl e \<Rightarrow> Inl e
             | Inr v \<Rightarrow> Inr (JStr (base @ py_format str_of v)))
          else Inr JNull)"

text \<open>Lines 133 to 146, the body of the \<^verbatim>\<open>try\<close>; \<open>JNull\<close> is \<^verbatim>\<open>None\<close>.\<close>

definition stremio_meta_body :: "(json \<Rightarrow> string) \<Rightarrow> json \<Rightarrow> error + json" where
  "stremio_meta_body str_of movie =
     (case py_get movie ''imdb_id'' of
        Inl e \<Rightarrow> Inl e
      | Inr imdb_id \<Rightarrow>
          (case py_get movie ''title'' of
             Inl e \<Rightarrow> Inl e
           | Inr title \<Rightarrow>
               if \<not> truthy imdb_id \<or> \<not> truthy title then Inr JNull
               else
                 (case image_url str_of ''https://image.tmdb.org/t/p/w500'' movie ''poster_path'' of
                    Inl e \<Rightarrow> Inl e
                  | Inr poster \<Rightarrow>
                      (case py_get_default movie ''overview'' (JStr []) of
                         Inl e \<Rightarrow> Inl e
                       | Inr description \<Rightarrow>
                           (case py_get_default movie ''release_date'' (JStr []) of
                              Inl e \<Rightarrow> Inl e
                            | Inr releaseInfo \<Rightarrow>
                                (case image_url str_of ''https://image.tmdb.org/t/p/w780'' movie
                                        ''backdrop_path'' of
                                   Inl e \<Rightarrow> Inl e
                                 | Inr background \<Rightarrow>
                                     Inr (JObj
                                       [(''id'', imdb_id),
                                        (''type'', JStr ''movie''),
                                        (''name'', title),
                                        (''poster'', poster),
                                        (''description'', description),
                                        (''releaseInfo'', releaseInfo),
                                        (''background'', background)])))))))"

definition to_stremio_meta :: "(json \<Rightarrow> string) \<Rightarrow> json \<Rightarrow> json" where
  "to_stremio_meta str_of movie =
     (case stremio_meta_body str_of movie of Inl e \<Rightarrow> JNull | Inr meta \<Rightarrow> meta)"

text \<open>
  Lines 174 to 180. \<^verbatim>\<open>jsonify\<close> wraps the document it is given; \<open>catalog_try\<close> is the
  body of the \<^verbatim>\<open>try\<close> and \<open>catalog_except\<close> the handler around it.
\<close>

definition catalog_try :: "(json \<Rightarrow> string) \<Rightarrow> json list \<Rightarrow> error + json" where
  "catalog_try str_of cache =
     Inr (JObj [(''metas'', JList (filter truthy (map (to_stremio_meta str_of) cache)))])"

definition catalog_except :: "error + json \<Rightarrow> json" where
  "catalog_except r = (case r of Inl e \<Rightarrow> JObj [(''metas'', JList [])] | Inr response \<Rightarrow> response)"

definition catalog :: "(json \<Rightarrow> string) \<Rightarrow> 'w state \<Rightarrow> json" where
  "catalog str_of st = catalog_except (catalog_try str_of (all_movies_cache st))"

section \<open>Notions of the specification\<close>

text \<open>What \<^verbatim>\<open>movie.get(key)\<close> reads in a movie: \<open>JNull\<close> when the key is missing.\<close>

definition field :: "json \<Rightarrow> string \<Rightarrow> json" where
  "field movie key =
     (case movie of
        JObj d \<Rightarrow> (case map_of d key of None \<Rightarrow> JNull | Some v \<Rightarrow> v)
      | _ \<Rightarrow> JNull)"

definition is_dict :: "json \<Rightarrow> bool" where
  "is_dict v = (case v of JObj d \<Rightarrow> True | _ \<Rightarrow> False)"

text \<open>
  An Accepted Movie: a dict whose external identifier is a string that starts with
  \<open>tt\<close> (so it is not empty) and whose title is not empty (not falsy).
\<close>

definition accepted :: "json \<Rightarrow> bool" where
  "accepted movie =
     (is_dict movie \<and>
      (case field movie ''imdb_id'' of JStr s \<Rightarrow> s \<noteq> [] \<and> prefix ''tt'' s | _ \<Rightarrow> False) \<and>
      truthy (field movie ''title''))"

text \<open>The invariant of the Movie Cache.\<close>

definition cache_invariant :: "json list \<Rightarrow> bool" where
  "cache_invariant cache =
     (list_all accepted cache \<and> distinct (map (\<lambda>m. field m ''imdb_id'') cache))"

text \<open>
  Deduplication as the specification words it: going through the list in order, an
  entry with an identifier is kept and every later entry with the same identifier is
  dropped; an entry without identifier is dropped.
\<close>

fun first_occurrences :: "json list \<Rightarrow> json list" where
  "first_occurrences [] = []"
| "first_occurrences (m # ms) =
     (if truthy (field m ''imdb_id'')
      then m # first_occurrences
                 (filter (\<lambda>m'. \<not> py_eq (field m ''imdb_id'') (field m' ''imdb_id'')) ms)
      else first_occurrences ms)"

text \<open>No two entries of a list have the same identifier.\<close>

fun no_repeats :: "json list \<Rightarrow> bool" where
  "no_repeats [] = True"
| "no_repeats (m # ms) =
     (list_all (\<lambda>m'. \<not> py_eq (field m ''imdb_id'') (field m' ''imdb_id'')) ms \<and> no_repeats ms)"




text \<open>
  Three things a discover response can be, read off the response alone. The page is
  empty when the document is a dict whose \<open>results\<close> are missing or an empty
  container. The request failed when it raised (a timeout or any other exception).
  The page is malformed when the request succeeded and the document is not a dict, its
  \<open>results\<close> are no container, or they hold something that is not a dict (so an
  element of a list that is not an object, or any character of a string or key of a
  dict).
\<close>

definition page_empty :: "outcome \<Rightarrow> bool" where
  "page_empty out =
     (case out of
        Inr (JObj d) \<Rightarrow>
          (case map_of d ''results'' of
             None \<Rightarrow> True
           | Some v \<Rightarrow> v = JList [] \<or> v = JStr [] \<or> v = JObj [])
      | _ \<Rightarrow> False)"

definition request_failed :: "outcome \<Rightarrow> bool" where
  "request_failed out = (case out of Inl e \<Rightarrow> True | Inr body \<Rightarrow> False)"

definition page_malformed :: "outcome \<Rightarrow> bool" where
  "page_malformed out =
     (case out of
        Inl e \<Rightarrow> False
      | Inr (JObj d) \<Rightarrow>
          (case map_of d ''results'' of
             None \<Rightarrow> False
           | Some (JList xs) \<Rightarrow> \<not> list_all is_dict xs
           | Some (JStr s) \<Rightarrow> s \<noteq> []
           | Some (JObj r) \<Rightarrow> r \<noteq> []
           | Some _ \<Rightarrow> True)
      | Inr _ \<Rightarrow> True)"

text \<open>
  What the two handlers of lines 108 to 115 report as a failed page: either of the
  last two.
\<close>

definition page_failed :: "outcome \<Rightarrow> bool" where
  "page_failed out = (request_failed out \<or> page_malformed out)"

text \<open>The page numbers of the discover queries in a log of requests.\<close>

fun discover_pages :: "request list \<Rightarrow> nat list" where
  "discover_pages [] = []"
| "discover_pages (Discover today page # rqs) = page # discover_pages rqs"
| "discover_pages (rq # rqs) = discover_pages rqs"

text \<open>
  The Catalog Entry of an Accepted Movie, field by field, and the image address: the
  base with its width segment followed by the path fragment, or null.
\<close>

definition image_address :: "(json \<Rightarrow> string) \<Rightarrow> string \<Rightarrow> json \<Rightarrow> json" where
  "image_address str_of width fragment =
     (if truthy fragment
      then JStr (''https://image.tmdb.org/t/p/'' @ width @ py_format str_of fragment)
      else JNull)"

definition catalog_entry :: "(json \<Rightarrow> string) \<Rightarrow> json \<Rightarrow> json" where
  "catalog_entry str_of movie =
     JObj
       [(''id'', field movie ''imdb_id''),
        (''type'', JStr ''movie''),
        (''name'', field movie ''title''),
        (''poster'', image_address str_of ''w500'' (field movie ''poster_path'')),
        (''description'',
           (case movie of
              JObj d \<Rightarrow> (case map_of d ''overview'' of None \<Rightarrow> JStr [] | Some v \<Rightarrow> v)
            | _ \<Rightarrow> JStr [])),
        (''releaseInfo'',
           (case movie of
              JObj d \<Rightarrow> (case map_of d ''release_date'' of None \<Rightarrow> JStr [] | Some v \<Rightarrow> v)
            | _ \<Rightarrow> JStr [])),
        (''background'', image_address str_of ''w780'' (field movie ''backdrop_path''))]"

definition projectable :: "json \<Rightarrow> bool" where
  "projectable movie =
     (is_dict movie \<and> truthy (field movie ''imdb_id'') \<and> truthy (field movie ''title''))"

section \<open>A service to run the program on\<close>

text \<open>
  The example of the specification: page 1 lists the movies 10 (Title A) and 20
  (Title B); only movie 10 has an entry for region IN, with the category rent, and its
  external identifier is tt1000000. Every later page answers \<open>later\<close>. The service
  keeps no state.
\<close>

definition title_a :: json where
  "title_a = JObj [(''id'', JInt 10), (''title'', JStr ''Title A'')]"

definition title_b :: json where
  "title_b = JObj [(''id'', JInt 20), (''title'', JStr ''Title B'')]"

definition example_service :: "outcome \<Rightarrow> unit service" where
  "example_service later w rq =
     (case rq of
        Discover today page \<Rightarrow>
          (if page = 1 then Inr (JObj [(''results'', JList [title_a, title_b])]) else later, w)
      | WatchProviders movie_id \<Rightarrow>
          (if movie_id = JInt 10
           then Inr (JObj [(''results'', JObj [(''IN'', JObj [(''rent'', JList [])])])])
           else Inr (JObj [(''results'', JObj [])]), w)
      | ExternalIds movie_id \<Rightarrow> (Inr (JObj [(''imdb_id'', JStr ''tt1000000'')]), w))"

text \<open>
  The state at process start, an exhausted page, and a stand-in for \<open>str_of\<close> on
  runs whose formatted values are all strings.
\<close>

definition start :: "unit state" where
  "start = \<lparr>all_movies_cache = [], world = (), issued = []\<rparr>"

definition no_results :: outcome where
  "no_results = Inr (JObj [(''results'', JList [])])"

definition str_unused :: "json \<Rightarrow> string" where
  "str_unused v = []"



text \<open>Movie 10 once accepted, and another movie that resolves to the same identifier.\<close>

definition accepted_a :: json where
  "accepted_a =
     JObj [(''id'', JInt 10), (''title'', JStr ''Title A''), (''imdb_id'', JStr ''tt1000000'')]"

definition accepted_c :: json where
  "accepted_c =
     JObj [(''id'', JInt 30), (''title'', JStr ''Title C''), (''imdb_id'', JStr ''tt1000000'')]"


section \<open>Properties\<close>

subsection \<open>Reading a movie\<close>

lemma field_dict [simp]: "field (JObj d) k = (case map_of d k of None \<Rightarrow> JNull | Some v \<Rightarrow> v)"
  by (simp add: field_def)

lemma py_get_dict [simp]: "py_get (JObj d) k = Inr (field (JObj d) k)"
  by (simp add: py_get_def)

lemma py_get_is_dict: "is_dict m \<Longrightarrow> py_get m k = Inr (field m k)"
  by (cases m) (simp_all add: is_dict_def)

lemma py_get_not_dict: "\<not> is_dict m \<Longrightarrow> py_get m k = Inl AttributeError"
  by (cases m) (simp_all add: is_dict_def py_get_def)

lemma py_startswith_True: "py_startswith b p = Inr True \<Longrightarrow> \<exists>s. b = JStr s \<and> prefix p s"
  by (cases b) auto

lemma add_with_imdb_id_cases:
  "add_with_imdb_id srv (JObj d) movie_id india final_movies st = (final_movies', st') \<Longrightarrow>
   st' = snd (requests_get srv (ExternalIds movie_id) st) \<and>
   (final_movies' = final_movies \<or>
    (\<exists>s. prefix ''tt'' s \<and> final_movies' = final_movies @ [JObj (AList.update ''imdb_id'' (JStr s) d)]))"
  unfolding add_with_imdb_id_def
  by (auto split: prod.splits sum.splits if_splits bool.splits dest!: py_startswith_True)

lemma accepted_update:
  assumes "map_of d ''title'' = Some t" "truthy t" "prefix ''tt'' s"
  shows "accepted (JObj (AList.update ''imdb_id'' (JStr s) d))"
  using assms by (auto simp: accepted_def is_dict_def update_conv')

lemma check_movie_dict:
  "check_movie srv (JObj d) final_movies st = (r, final_movies', st') \<Longrightarrow>
   r = None \<and>
   (final_movies' = final_movies \<or> (\<exists>m. accepted m \<and> final_movies' = final_movies @ [m]))"
  unfolding check_movie_def
  by (auto split: prod.splits sum.splits if_splits bool.splits option.splits
           dest!: add_with_imdb_id_cases simp: accepted_update)

lemma check_movie_not_dict:
  "\<not> is_dict movie \<Longrightarrow> check_movie srv movie final_movies st = (Some AttributeError, final_movies, st)"
  by (simp add: check_movie_def py_get_not_dict)

lemma check_movies_accepted:
  "check_movies srv movies final_movies st = (r, final_movies', st') \<Longrightarrow>
   list_all accepted final_movies \<Longrightarrow> list_all accepted final_movies' \<and> prefix final_movies final_movies'"
proof (induction movies arbitrary: final_movies st)
  case Nil
  then show ?case by simp
next
  case (Cons movie rest)
  obtain r1 f1 st1 where step: "check_movie srv movie final_movies st = (r1, f1, st1)"
    by (cases "check_movie srv movie final_movies st") auto
  have f1: "list_all accepted f1 \<and> prefix final_movies f1"
  proof (cases "is_dict movie")
    case True
    then obtain d where "movie = JObj d" by (cases movie) (auto simp: is_dict_def)
    with step Cons.prems(2) show ?thesis by (auto dest!: check_movie_dict)
  next
    case False
    with step Cons.prems(2) show ?thesis by (simp add: check_movie_not_dict)
  qed
  show ?case
  proof (cases r1)
    case None
    with step Cons.prems(1) have "check_movies srv rest f1 st1 = (r, final_movies', st')" by simp
    from Cons.IH[OF this] f1 show ?thesis by (auto intro: prefix_order.trans)
  next
    case (Some e)
    with step Cons.prems(1) f1 show ?thesis by simp
  qed
qed

lemma fetch_page_accepted:
  "fetch_page srv today page final_movies st = (r, final_movies', st') \<Longrightarrow>
   list_all accepted final_movies \<Longrightarrow> list_all accepted final_movies' \<and> prefix final_movies final_movies'"
  unfolding fetch_page_def
  by (auto split: prod.splits sum.splits if_splits option.splits dest: check_movies_accepted)

lemma fetch_pages_accepted:
  "fetch_pages srv today pages final_movies st = (final_movies', st') \<Longrightarrow>
   list_all accepted final_movies \<Longrightarrow> list_all accepted final_movies' \<and> prefix final_movies final_movies'"
proof (induction pages arbitrary: final_movies st)
  case Nil
  then show ?case by simp
next
  case (Cons page pages)
  obtain r1 f1 st1 where step: "fetch_page srv today page final_movies st = (r1, f1, st1)"
    by (cases "fetch_page srv today page final_movies st") auto
  from fetch_page_accepted[OF step Cons.prems(2)]
  have f1: "list_all accepted f1" "prefix final_movies f1" by simp_all
  show ?case
  proof (cases r1)
    case Completed
    with step Cons.prems(1) have "fetch_pages srv today pages f1 st1 = (final_movies', st')" by simp
    from Cons.IH[OF this f1(1)] f1(2) show ?thesis by (auto intro: prefix_order.trans)
  next
    case Exhausted
    with step Cons.prems(1) f1 show ?thesis by simp
  next
    case (Raised e)
    with step Cons.prems(1) f1 show ?thesis by simp
  qed
qed

subsection \<open>Deduplication\<close>

lemma deduplicate_first_occurrences:
  "\<forall>m\<in>set ms. is_dict m \<and> py_hashable (field m ''imdb_id'') \<Longrightarrow>
   deduplicate ms seen_ids unique_movies =
     Inr (unique_movies @
          first_occurrences
            (filter (\<lambda>m. \<not> list_ex (\<lambda>u. py_eq u (field m ''imdb_id'')) seen_ids) ms))"
proof (induction ms arbitrary: seen_ids unique_movies)
  case Nil
  then show ?case by simp
next
  case (Cons m rest)
  then have m: "py_get m ''imdb_id'' = Inr (field m ''imdb_id'')" "py_hashable (field m ''imdb_id'')"
    and rest: "\<forall>m\<in>set rest. is_dict m \<and> py_hashable (field m ''imdb_id'')"
    by (simp_all add: py_get_is_dict)
  show ?case
    using m by (simp add: Cons.IH[OF rest] py_in_set_def list_ex_iff conj_commute)
qed

lemma first_occurrences_subseq: "subseq (first_occurrences ms) ms"
proof (induction ms rule: first_occurrences.induct)
  case 1
  then show ?case by simp
next
  case (2 m ms)
  show ?case
  proof (cases "truthy (field m ''imdb_id'')")
    case True
    from 2(1)[OF True] have "subseq (first_occurrences (filter (\<lambda>m'. \<not> py_eq (field m ''imdb_id'') (field m' ''imdb_id'')) ms)) ms"
      by (rule subseq_order.trans) simp
    with True show ?thesis by simp
  next
    case False
    with 2(2) show ?thesis by (simp add: list_emb_Cons)
  qed
qed

lemma first_occurrences_set: "set (first_occurrences ms) \<subseteq> {m \<in> set ms. truthy (field m ''imdb_id'')}"
  by (induction ms rule: first_occurrences.induct) auto

lemma first_occurrences_no_repeats: "no_repeats (first_occurrences ms)"
proof (induction ms rule: first_occurrences.induct)
  case 1
  then show ?case by simp
next
  case (2 m ms)
  show ?case
  proof (cases "truthy (field m ''imdb_id'')")
    case True
    with 2(1) first_occurrences_set[of "filter (\<lambda>m'. \<not> py_eq (field m ''imdb_id'') (field m' ''imdb_id'')) ms"]
    show ?thesis by (auto simp: list_all_iff)
  next
    case False
    with 2(2) show ?thesis by simp
  qed
qed

lemma py_eq_refl [simp]: "py_eq a a"
  by (cases "py_num a") (simp_all add: py_eq_def)

lemma first_occurrences_covers:
  "x \<in> set ms \<Longrightarrow> truthy (field x ''imdb_id'') \<Longrightarrow>
   \<exists>u\<in>set (first_occurrences ms). py_eq (field u ''imdb_id'') (field x ''imdb_id'')"
  by (induction ms rule: first_occurrences.induct) auto

lemma py_eq_str [simp]: "py_eq (JStr a) v = (v = JStr a)"
  by (cases v) (auto simp: py_eq_def)

lemma accepted_imdb: "accepted m \<Longrightarrow> \<exists>s. field m ''imdb_id'' = JStr s \<and> s \<noteq> [] \<and> prefix ''tt'' s"
  by (auto simp: accepted_def split: json.splits)

lemma no_repeats_distinct:
  "no_repeats ms \<Longrightarrow> list_all accepted ms \<Longrightarrow> distinct (map (\<lambda>m. field m ''imdb_id'') ms)"
proof (induction ms)
  case Nil
  then show ?case by simp
next
  case (Cons m ms)
  from Cons.prems(2) obtain s where s: "field m ''imdb_id'' = JStr s"
    using accepted_imdb by auto
  with Cons show ?case by (auto simp: list_all_iff)
qed

lemma accepted_dedup_ok:
  "list_all accepted ms \<Longrightarrow> \<forall>m\<in>set ms. is_dict m \<and> py_hashable (field m ''imdb_id'')"
proof
  fix m assume "list_all accepted ms" "m \<in> set ms"
  then have a: "accepted m" by (simp add: list_all_iff)
  then obtain s where "field m ''imdb_id'' = JStr s" using accepted_imdb by auto
  with a show "is_dict m \<and> py_hashable (field m ''imdb_id'')" by (simp add: accepted_def)
qed

subsection \<open>The example run\<close>

lemma pages_unfold: "[1..<301] = 1 # 2 # [3..<301]"
  by (simp add: upt_conv_Cons)

lemma example_page_1:
  "fetch_page (example_service later) today 1 [] start =
     (Completed, [accepted_a],
      \<lparr>all_movies_cache = [], world = (),
       issued = [Discover today 1, WatchProviders (JInt 10), ExternalIds (JInt 10),
                 WatchProviders (JInt 20)]\<rparr>)"
  by (simp add: fetch_page_def requests_get_def example_service_def start_def title_a_def
      title_b_def check_movie_def india_providers_of_def has_provider_def add_with_imdb_id_def
      py_get_def accepted_a_def)

lemma example_run:
  "fetch_and_cache_movies (example_service no_results) today start =
     (None, \<lparr>all_movies_cache = [accepted_a], world = (),
       issued = [Discover today 1, WatchProviders (JInt 10), ExternalIds (JInt 10),
                 WatchProviders (JInt 20), Discover today 2]\<rparr>)"
  unfolding fetch_and_cache_movies_def pages_unfold
  apply (simp add: example_page_1 del: One_nat_def)
  apply (simp add: fetch_page_def requests_get_def example_service_def no_results_def accepted_a_def py_in_set_def py_get_def)
  done


subsection \<open>The refresh run\<close>

lemma first_occurrence_kept:
  "ms = pre @ x # post \<Longrightarrow> truthy (field x ''imdb_id'') \<Longrightarrow>
   \<forall>p\<in>set pre. \<not> py_eq (field p ''imdb_id'') (field x ''imdb_id'') \<Longrightarrow>
   x \<in> set (first_occurrences ms)"
proof (induction ms arbitrary: pre post rule: first_occurrences.induct)
  case 1
  then show ?case by simp
next
  case (2 m ms)
  show ?case
  proof (cases pre)
    case Nil
    with 2(3,4) show ?thesis by simp
  next
    case (Cons p pre')
    with 2(3) have m: "m = p" and ms: "ms = pre' @ x # post" by simp_all
    from 2(5) Cons m have keep: "\<not> py_eq (field m ''imdb_id'') (field x ''imdb_id'')"
      and pre': "\<forall>p\<in>set pre'. \<not> py_eq (field p ''imdb_id'') (field x ''imdb_id'')" by simp_all
    show ?thesis
    proof (cases "truthy (field m ''imdb_id'')")
      case True
      let ?Q = "\<lambda>m'. \<not> py_eq (field m ''imdb_id'') (field m' ''imdb_id'')"
      have "filter ?Q ms = filter ?Q pre' @ x # filter ?Q post"
        using ms keep by simp
      from 2(1)[OF True this 2(4)] pre' True show ?thesis by simp
    next
      case False
      from 2(2)[OF False ms 2(4) pre'] False show ?thesis by simp
    qed
  qed
qed

lemma fetch_pages_dedup:
  "deduplicate (fst (fetch_pages srv today pages [] st)) [] [] =
     Inr (first_occurrences (fst (fetch_pages srv today pages [] st))) \<and>
   list_all accepted (fst (fetch_pages srv today pages [] st))"
proof -
  obtain f st' where run: "fetch_pages srv today pages [] st = (f, st')"
    by (cases "fetch_pages srv today pages [] st") auto
  from fetch_pages_accepted[OF run] have acc: "list_all accepted f" by simp
  from deduplicate_first_occurrences[OF accepted_dedup_ok[OF acc], of "[]" "[]"] acc run
  show ?thesis by simp
qed

lemma fetch_and_cache_movies_result:
  "fetch_and_cache_movies srv today st =
     (None, (snd (fetch_pages srv today [1..<301] [] st))
              \<lparr>all_movies_cache := first_occurrences (fst (fetch_pages srv today [1..<301] [] st))\<rparr>)"
  unfolding fetch_and_cache_movies_def
  using fetch_pages_dedup[of srv today "[1..<301]" st]
  by (simp add: case_prod_unfold del: upt_rec_numeral)

text \<open>
  \<^bold>\<open>C1.\<close> After every run of \<open>fetch_and_cache_movies\<close>, for every service and every
  starting state (so whether pagination reached page 300, met an empty page or met a
  failing request), the installed cache satisfies the invariant: every element is a
  dict whose external identifier is a non-empty string starting with \<open>tt\<close> and whose
  title is not empty (not falsy), and no two elements have the same external
  identifier.
\<close>

theorem refreshed_cache_invariant:
  "cache_invariant (all_movies_cache (snd (fetch_and_cache_movies srv today st)))"
proof -
  let ?f = "fst (fetch_pages srv today [1..<301] [] st)"
  have acc: "list_all accepted ?f"
    using fetch_pages_dedup[of srv today "[1..<301]" st] by simp
  have "set (first_occurrences ?f) \<subseteq> set ?f"
    using first_occurrences_set[of ?f] by blast
  with acc have acc': "list_all accepted (first_occurrences ?f)"
    by (auto simp: list_all_iff)
  from no_repeats_distinct[OF first_occurrences_no_repeats acc'] acc'
  show ?thesis
    by (simp add: fetch_and_cache_movies_result cache_invariant_def)
qed

theorem refreshed_cache_invariant_witness:
  "all_movies_cache (snd (fetch_and_cache_movies (example_service no_results) ''2024-01-01'' start))
     = [accepted_a] \<and> cache_invariant [accepted_a]"
  using refreshed_cache_invariant[of "example_service no_results" "''2024-01-01''" start]
  by (simp add: example_run)

text \<open>Two movies identified by NaN are one identifier: the second is dropped.\<close>

lemma nan_identifier_once:
  "deduplicate
     [JObj [(''title'', JStr ''Title A''), (''imdb_id'', JFloat NaN)],
      JObj [(''title'', JStr ''Title B''), (''imdb_id'', JFloat NaN)]] [] [] =
   Inr [JObj [(''title'', JStr ''Title A''), (''imdb_id'', JFloat NaN)]]"
  by (simp add: py_in_set_def py_eq_def)

text \<open>
  \<^bold>\<open>C2.\<close> On every list of movies (dicts whose external identifier, when present, can
  be hashed) the deduplication loop of lines 118 to 124 does not raise and returns the
  first occurrences: a subsequence of its input (order preserved), in which no two
  entries have the same identifier, in which every identifier of the input is
  represented, and which holds every entry that no earlier entry of the input shares
  its identifier with.
\<close>

theorem deduplicate_keeps_first_occurrences:
  assumes "\<forall>m\<in>set ms. is_dict m \<and> py_hashable (field m ''imdb_id'')"
  shows "deduplicate ms [] [] = Inr (first_occurrences ms) \<and>
         subseq (first_occurrences ms) ms \<and>
         no_repeats (first_occurrences ms) \<and>
         (\<forall>x\<in>set ms. truthy (field x ''imdb_id'') \<longrightarrow>
            (\<exists>u\<in>set (first_occurrences ms).
               py_eq (field u ''imdb_id'') (field x ''imdb_id''))) \<and>
         (\<forall>pre x post.
            ms = pre @ x # post \<and> truthy (field x ''imdb_id'') \<and>
            (\<forall>p\<in>set pre. \<not> py_eq (field p ''imdb_id'') (field x ''imdb_id''))
            \<longrightarrow> x \<in> set (first_occurrences ms))"
  using deduplicate_first_occurrences[OF assms, of "[]" "[]"]
    first_occurrences_subseq[of ms] first_occurrences_no_repeats[of ms]
    first_occurrences_covers[of _ ms] first_occurrence_kept[of ms]
  by auto

theorem deduplicate_keeps_first_occurrences_witness:
  "list_all (\<lambda>m. is_dict m \<and> py_hashable (field m ''imdb_id''))
     [accepted_a, title_b, accepted_c] \<and>
   deduplicate [accepted_a, title_b, accepted_c] [] [] = Inr [accepted_a] \<and>
   first_occurrences [accepted_a, title_b, accepted_c] = [accepted_a] \<and>
   no_repeats [accepted_a]"
proof -
  have h: "\<forall>m\<in>set [accepted_a, title_b, accepted_c]. is_dict m \<and> py_hashable (field m ''imdb_id'')"
    by (simp add: accepted_a_def title_b_def accepted_c_def is_dict_def)
  have v: "first_occurrences [accepted_a, title_b, accepted_c] = [accepted_a]"
    by (simp add: accepted_a_def title_b_def accepted_c_def)
  from deduplicate_keeps_first_occurrences[OF h] h v show ?thesis by (simp add: list_all_iff)
qed




text \<open>
  \<^bold>\<open>C10.\<close> A candidate whose \<^verbatim>\<open>id\<close> or \<^verbatim>\<open>title\<close> is falsy, not only missing, is
  skipped by the check of line 62: the list of accepted movies is unchanged, no
  exception leaves the loop body, and the state is unchanged, so no watch-providers or
  external-identifier request was issued for it. In particular this holds for the
  numeric identifier 0 and for the empty title.
\<close>

theorem falsy_candidate_skipped:
  "(\<not> truthy (field (JObj d) ''id'') \<or> \<not> truthy (field (JObj d) ''title'')
      \<longrightarrow> check_movie srv (JObj d) final_movies st = (None, final_movies, st))
   \<and> (field (JObj d) ''id'' = JInt 0
      \<longrightarrow> check_movie srv (JObj d) final_movies st = (None, final_movies, st))
   \<and> (map_of d ''title'' = Some (JStr [])
      \<longrightarrow> check_movie srv (JObj d) final_movies st = (None, final_movies, st))"
  by (auto simp: check_movie_def split: option.splits)

theorem falsy_candidate_skipped_witness:
  "field (JObj [(''id'', JInt 0), (''title'', JStr ''Title A'')]) ''id'' = JInt 0 \<and>
   check_movie (example_service no_results) (JObj [(''id'', JInt 0), (''title'', JStr ''Title A'')])
     [] start = (None, [], start)"
  using falsy_candidate_skipped[of "[(''id'', JInt 0), (''title'', JStr ''Title A'')]"
      "example_service no_results" "[]" start]
  by simp

subsection \<open>Pagination\<close>

lemma check_movies_raises: "fst (check_movies srv movies final_movies st) = None \<longleftrightarrow> list_all is_dict movies"
proof (induction movies arbitrary: final_movies st)
  case Nil
  then show ?case by simp
next
  case (Cons movie rest)
  show ?case
  proof (cases "is_dict movie")
    case True
    then obtain d where d: "movie = JObj d" by (cases movie) (auto simp: is_dict_def)
    obtain r f1 st1 where step: "check_movie srv (JObj d) final_movies st = (r, f1, st1)"
      by (cases "check_movie srv (JObj d) final_movies st") auto
    from check_movie_dict[OF step] have "r = None" by simp
    with step d True Cons.IH[of f1 st1] show ?thesis by simp
  next
    case False
    then show ?thesis by (simp add: check_movie_not_dict)
  qed
qed

lemma requests_get_fst [simp]: "fst (requests_get srv rq st) = fst (srv (world st) rq)"
  by (simp add: requests_get_def split: prod.splits)


lemma str_elements_not_dict: "list_all is_dict (map (\<lambda>c. JStr [c]) s) \<longleftrightarrow> s = []"
  by (cases s) (simp_all add: is_dict_def)

lemma key_elements_not_dict: "list_all is_dict (map (\<lambda>kv. JStr (fst kv)) r) \<longleftrightarrow> r = []"
  by (cases r) (simp_all add: is_dict_def)

lemma fetch_page_completed:
  "fst (fetch_page srv today page final_movies st) = Completed \<longleftrightarrow>
   \<not> page_empty (fst (srv (world st) (Discover today page))) \<and>
   \<not> request_failed (fst (srv (world st) (Discover today page))) \<and>
   \<not> page_malformed (fst (srv (world st) (Discover today page)))"
proof (cases "requests_get srv (Discover today page) st")
  case (Pair out st')
  then have out: "fst (srv (world st) (Discover today page)) = out"
    using requests_get_fst[of srv "Discover today page" st] by simp
  show ?thesis
  proof (cases out)
    case (Inl e)
    with Pair out show ?thesis by (simp add: fetch_page_def page_empty_def request_failed_def page_malformed_def)
  next
    case (Inr body)
    show ?thesis
    proof (cases body)
      case (JObj d)
      show ?thesis
      proof (cases "map_of d ''results''")
        case None
        with Pair out Inr JObj show ?thesis
          by (simp add: fetch_page_def page_empty_def request_failed_def page_malformed_def)
      next
        case (Some results)
        have cm: "\<And>ms. (case check_movies srv ms final_movies st' of
                  (Some e, f, s) \<Rightarrow> (Raised e, f, s) | (None, f, s) \<Rightarrow> (Completed, f, s)) =
               (case fst (check_movies srv ms final_movies st') of Some e \<Rightarrow> Raised e | None \<Rightarrow> Completed,
                snd (check_movies srv ms final_movies st'))"
          by (auto split: prod.splits option.splits)
        have cm2: "\<And>ms. ((case fst (check_movies srv ms final_movies st') of Some e \<Rightarrow> Raised e | None \<Rightarrow> Completed) = Completed)
           = list_all is_dict ms"
        proof -
          fix ms
          show "((case fst (check_movies srv ms final_movies st') of Some e \<Rightarrow> Raised e | None \<Rightarrow> Completed) = Completed)
           = list_all is_dict ms"
            using check_movies_raises[of srv ms final_movies st']
            by (cases "fst (check_movies srv ms final_movies st')") auto
        qed
        from Pair out Inr JObj Some show ?thesis
          by (cases results)
             (auto simp: fetch_page_def page_empty_def request_failed_def page_malformed_def cm cm2
                str_elements_not_dict key_elements_not_dict)
      qed
    qed (use Pair out Inr in \<open>simp_all add: fetch_page_def page_empty_def request_failed_def page_malformed_def\<close>)
  qed
qed






lemma fetch_pages_step:
  "fetch_pages srv today (page # pages) final_movies st =
     (if fst (fetch_page srv today page final_movies st) = Completed
      then fetch_pages srv today pages (fst (snd (fetch_page srv today page final_movies st)))
             (snd (snd (fetch_page srv today page final_movies st)))
      else snd (fetch_page srv today page final_movies st))"
  by (cases "fetch_page srv today page final_movies st" rule: prod_cases3)
     (auto split: page_end.splits)





subsection \<open>Requests issued and candidates left out\<close>

lemma discover_pages_append [simp]:
  "discover_pages (xs @ ys) = discover_pages xs @ discover_pages ys"
  by (induction xs rule: discover_pages.induct) simp_all

lemma add_with_imdb_id_issued:
  "issued (snd (add_with_imdb_id srv movie movie_id india final_movies st)) =
     issued st @ [ExternalIds movie_id]"
  unfolding add_with_imdb_id_def
  by (cases "srv (world st) (ExternalIds movie_id)")
     (simp add: requests_get_def split: sum.splits bool.splits)

lemma check_movie_issued:
  "discover_pages (issued (snd (snd (check_movie srv movie final_movies st)))) =
     discover_pages (issued st)"
proof -
  show ?thesis
  proof (cases "is_dict movie")
    case True
    then have g: "\<And>k. py_get movie k = Inr (field movie k)" by (simp add: py_get_is_dict)
    show ?thesis
      unfolding check_movie_def
      by (cases "srv (world st) (WatchProviders (field movie ''id''))")
         (simp add: g add_with_imdb_id_issued requests_get_def case_prod_unfold
            split: sum.splits bool.splits option.splits)
  next
    case False
    then show ?thesis by (simp add: check_movie_not_dict)
  qed
qed

lemma check_movies_issued:
  "discover_pages (issued (snd (snd (check_movies srv movies final_movies st)))) =
     discover_pages (issued st)"
proof (induction movies arbitrary: final_movies st)
  case Nil
  then show ?case by simp
next
  case (Cons movie rest)
  obtain r f1 st1 where step: "check_movie srv movie final_movies st = (r, f1, st1)"
    by (cases "check_movie srv movie final_movies st") auto
  with check_movie_issued[of srv movie final_movies st]
  have i: "discover_pages (issued st1) = discover_pages (issued st)" by simp
  show ?case
  proof (cases r)
    case None
    with step Cons.IH[of f1 st1] i show ?thesis by simp
  next
    case (Some e)
    with step i show ?thesis by simp
  qed
qed

lemma fetch_page_issued:
  "discover_pages (issued (snd (snd (fetch_page srv today page final_movies st)))) =
     discover_pages (issued st) @ [page]"
proof -
  have c: "\<And>ms st'. discover_pages (issued (snd (snd (case check_movies srv ms final_movies st' of
                  (Some e, f, s) \<Rightarrow> (Raised e, f, s) | (None, f, s) \<Rightarrow> (Completed, f, s))))) =
              discover_pages (issued st')"
  proof -
    fix ms st'
    show "discover_pages (issued (snd (snd (case check_movies srv ms final_movies st' of
                  (Some e, f, s) \<Rightarrow> (Raised e, f, s) | (None, f, s) \<Rightarrow> (Completed, f, s))))) =
              discover_pages (issued st')"
      using check_movies_issued[of srv ms final_movies st']
      by (auto split: prod.splits option.splits)
  qed
  show ?thesis
    unfolding fetch_page_def
    by (cases "srv (world st) (Discover today page)")
       (simp add: c requests_get_def split: sum.splits)
qed

lemma fetch_pages_issued:
  "\<exists>k. (pages \<noteq> [] \<longrightarrow> 0 < k) \<and> k \<le> length pages \<and>
       discover_pages (issued (snd (fetch_pages srv today pages final_movies st))) =
         discover_pages (issued st) @ take k pages"
proof (induction pages arbitrary: final_movies st)
  case Nil
  then show ?case by simp
next
  case (Cons page pages)
  let ?r = "fetch_page srv today page final_movies st"
  have i: "discover_pages (issued (snd (snd ?r))) = discover_pages (issued st) @ [page]"
    by (rule fetch_page_issued)
  show ?case
  proof (cases "fst ?r = Completed")
    case True
    from Cons.IH[of "fst (snd ?r)" "snd (snd ?r)"] obtain k where
      k: "k \<le> length pages"
        "discover_pages (issued (snd (fetch_pages srv today pages (fst (snd ?r)) (snd (snd ?r))))) =
         discover_pages (issued (snd (snd ?r))) @ take k pages"
      by blast
    with True i show ?thesis
      by (intro exI[of _ "Suc k"]) (simp add: fetch_pages_step del: fetch_pages.simps)
  next
    case False
    with i show ?thesis
      by (intro exI[of _ "Suc 0"]) (simp add: fetch_pages_step del: fetch_pages.simps)
  qed
qed

lemma fetch_pages_issued_all:
  "\<forall>w t p. \<not> page_empty (fst (srv w (Discover t p))) \<and> \<not> page_failed (fst (srv w (Discover t p))) \<Longrightarrow>
   discover_pages (issued (snd (fetch_pages srv today pages final_movies st))) =
     discover_pages (issued st) @ pages"
proof (induction pages arbitrary: final_movies st)
  case Nil
  then show ?case by simp
next
  case (Cons page pages)
  let ?r = "fetch_page srv today page final_movies st"
  from Cons.prems have "fst ?r = Completed" by (simp add: fetch_page_completed page_failed_def)
  with Cons.IH[OF Cons.prems, of "fst (snd ?r)" "snd (snd ?r)"]
    fetch_page_issued[of srv today page final_movies st]
  show ?case by (simp add: fetch_pages_step del: fetch_pages.simps)
qed

lemma fetch_and_cache_movies_issued:
  "issued (snd (fetch_and_cache_movies srv today st)) =
     issued (snd (fetch_pages srv today [1..<301] [] st))"
  by (simp add: fetch_and_cache_movies_result del: upt_rec_numeral)

text \<open>
  \<^bold>\<open>C8.\<close> The discover queries a run issues are those of pages 1 to \<open>k\<close>, in this
  order and once each, for some \<open>k\<close> between 1 and 300. When no page is ever empty
  and none ever fails, the run still ends, without an exception, after the queries of
  pages 1 to 300.
\<close>

theorem at_most_300_pages:
  "(\<exists>k. 1 \<le> k \<and> k \<le> 300 \<and>
        discover_pages (issued (snd (fetch_and_cache_movies srv today st))) =
          discover_pages (issued st) @ [1..<Suc k]) \<and>
   ((\<forall>w t p. \<not> page_empty (fst (srv w (Discover t p))) \<and>
             \<not> page_failed (fst (srv w (Discover t p)))) \<longrightarrow>
      fst (fetch_and_cache_movies srv today st) = None \<and>
      discover_pages (issued (snd (fetch_and_cache_movies srv today st))) =
        discover_pages (issued st) @ [1..<301])"
proof -
  from fetch_pages_issued[of "[1..<301]" srv today "[]" st] obtain k where
    k: "0 < k" "k \<le> 300"
      "discover_pages (issued (snd (fetch_pages srv today [1..<301] [] st))) =
         discover_pages (issued st) @ take k [1..<301]"
    by (auto simp del: upt_rec_numeral)
  from k(2) have "take k [1..<301] = [1..<Suc k]"
    by (simp del: upt_rec_numeral upt_Suc)
  with k have 1: "\<exists>k. 1 \<le> k \<and> k \<le> 300 \<and>
        discover_pages (issued (snd (fetch_and_cache_movies srv today st))) =
          discover_pages (issued st) @ [1..<Suc k]"
    by (intro exI[of _ k]) (simp add: fetch_and_cache_movies_issued del: upt_rec_numeral upt_Suc)
  have 2: "(\<forall>w t p. \<not> page_empty (fst (srv w (Discover t p))) \<and>
             \<not> page_failed (fst (srv w (Discover t p)))) \<longrightarrow>
      fst (fetch_and_cache_movies srv today st) = None \<and>
      discover_pages (issued (snd (fetch_and_cache_movies srv today st))) =
        discover_pages (issued st) @ [1..<301]"
    using fetch_pages_issued_all[of srv today "[1..<301]" "[]" st]
    by (simp add: fetch_and_cache_movies_issued fetch_and_cache_movies_result del: upt_rec_numeral)
  from 1 2 show ?thesis by blast
qed

theorem at_most_300_pages_witness:
  "discover_pages (issued (snd (fetch_and_cache_movies
      (example_service (Inr (JObj [(''results'', JList [JObj []])]))) ''2024-01-01'' start))) =
     [1..<301]"
proof -
  have h: "\<forall>w t p.
      \<not> page_empty (fst (example_service (Inr (JObj [(''results'', JList [JObj []])])) w (Discover t p))) \<and>
      \<not> page_failed (fst (example_service (Inr (JObj [(''results'', JList [JObj []])])) w (Discover t p)))"
    by (simp add: example_service_def page_empty_def page_failed_def request_failed_def
        page_malformed_def is_dict_def title_a_def title_b_def)
  from at_most_300_pages[of "example_service (Inr (JObj [(''results'', JList [JObj []])]))"
      "''2024-01-01''" start] h
  show ?thesis by (simp add: start_def del: upt_rec_numeral)
qed








subsection \<open>The catalog\<close>

lemma image_url_dict:
  "image_url str_of (''https://image.tmdb.org/t/p/'' @ width) (JObj d) key =
     Inr (image_address str_of width (field (JObj d) key))"
  by (auto simp: image_url_def image_address_def split: option.splits)

lemma stremio_meta_body_dict:
  "stremio_meta_body str_of (JObj d) =
     Inr (if projectable (JObj d) then catalog_entry str_of (JObj d) else JNull)"
  using image_url_dict[of str_of "''w500''" d "''poster_path''"]
    image_url_dict[of str_of "''w780''" d "''backdrop_path''"]
  by (simp add: stremio_meta_body_def projectable_def is_dict_def catalog_entry_def)

lemma to_stremio_meta_projection:
  "to_stremio_meta str_of movie =
     (if projectable movie then catalog_entry str_of movie else JNull)"
proof (cases movie)
  case (JObj d)
  then show ?thesis by (simp add: to_stremio_meta_def stremio_meta_body_dict)
qed (simp_all add: to_stremio_meta_def stremio_meta_body_def py_get_def projectable_def is_dict_def)

lemma metas_projection:
  "filter truthy (map (to_stremio_meta str_of) cache) =
     map (catalog_entry str_of) (filter projectable cache)"
  by (induction cache) (simp_all add: to_stremio_meta_projection catalog_entry_def)

lemma catalog_projection:
  "catalog str_of st =
     JObj [(''metas'', JList (map (catalog_entry str_of) (filter projectable (all_movies_cache st))))]"
  by (simp add: catalog_def catalog_try_def catalog_except_def metas_projection)






text \<open>
  \<^bold>\<open>C7.\<close> For every cache the catalog endpoint answers a document with the single key
  \<open>metas\<close> bound to a list; the body of its \<^verbatim>\<open>try\<close> never raises; the answer is
  \<open>{"metas": []}\<close> when the cache is empty, and it is what the handler answers for any
  exception.
\<close>

theorem catalog_never_fails:
  "(\<exists>metas. catalog str_of st = JObj [(''metas'', JList metas)]) \<and>
   (\<exists>response. catalog_try str_of (all_movies_cache st) = Inr response) \<and>
   (all_movies_cache st = [] \<longrightarrow> catalog str_of st = JObj [(''metas'', JList [])]) \<and>
   catalog_except (Inl e) = JObj [(''metas'', JList [])]"
  by (simp add: catalog_projection catalog_try_def catalog_except_def)

theorem catalog_never_fails_witness:
  "all_movies_cache start = [] \<and> catalog str_unused start = JObj [(''metas'', JList [])]"
  using catalog_never_fails[of str_unused start] by (simp add: start_def)



end
